theory Spec2Isabelle
  imports Main "HOL-Library.Char_ord" "HOL-Library.List_Lexorder" "HOL-Library.AList"
begin

section \<open>Paths\<close>

text \<open>
  A \<open>pathlib.Path\<close> is modelled by its \<open>parts\<close>: the list of its components, with the
  anchor (\<open>/\<close> or \<open>//\<close>) as first component of an absolute path. The empty list is the
  path \<open>.\<close>. pathlib compares two paths by their parts, which is the order of
  \<open>string list\<close> here: characters by code, strings and part lists lexicographically.
\<close>

type_synonym path = "string list"

definition is_anchor :: "string \<Rightarrow> bool" where
  "is_anchor s = (s = ''/'' \<or> s = ''//'')"

fun split_sep :: "string \<Rightarrow> string \<Rightarrow> string list" where
  "split_sep acc [] = [rev acc]"
| "split_sep acc (c # cs) =
     (if c = CHR ''/'' then rev acc # split_sep [] cs else split_sep (c # acc) cs)"

text \<open>
  \<open>Path(s)\<close> on a POSIX system: the root is \<open>//\<close> when \<open>s\<close> starts with exactly two
  slashes and \<open>/\<close> when it starts with any other number of them; empty components and
  \<open>.\<close> components are dropped.
\<close>

definition Path :: "string \<Rightarrow> path" where
  "Path s =
     (let root = (if take 2 s = ''//'' \<and> take 3 s \<noteq> ''///'' then [''//'']
                  else if take 1 s = ''/'' then [''/'']
                  else [])
      in root @ filter (\<lambda>x. x \<noteq> [] \<and> x \<noteq> ''.'') (split_sep [] s))"

fun join :: "string \<Rightarrow> string list \<Rightarrow> string" where
  "join sep [] = []"
| "join sep [x] = x"
| "join sep (x # y # ys) = x @ sep @ join sep (y # ys)"

text \<open>\<open>str(path)\<close>: the anchor, then the other parts joined by \<open>/\<close>; \<open>.\<close> for no part.\<close>

fun str_path :: "path \<Rightarrow> string" where
  "str_path [] = ''.''"
| "str_path (x # xs) = (if is_anchor x then x @ join ''/'' xs else join ''/'' (x # xs))"

text \<open>\<open>path.parent\<close>: a path that is only an anchor, or empty, is its own parent.\<close>

definition parent :: "path \<Rightarrow> path" where
  "parent p = (if p = [] \<or> (length p = 1 \<and> is_anchor (hd p)) then p else butlast p)"

text \<open>\<open>path.name\<close>: the last component, empty for \<open>.\<close> and for an anchor.\<close>

definition name :: "path \<Rightarrow> string" where
  "name p = (if p = [] \<or> (length p = 1 \<and> is_anchor (hd p)) then [] else last p)"

text \<open>\<open>s.rfind(c)\<close>: the highest index of \<open>c\<close> in \<open>s\<close>, or \<open>-1\<close>.\<close>

definition rfind :: "string \<Rightarrow> char \<Rightarrow> int" where
  "rfind s c =
     (if c \<in> set s then int (length s) - 1 - int (length (takeWhile (\<lambda>x. x \<noteq> c) (rev s)))
      else - 1)"

text \<open>
  \<open>path.suffix\<close> and \<open>path.stem\<close> as pathlib defines them: the name is cut at its last
  dot, unless that dot is the first or the last character of the name.
\<close>

definition suffix :: "path \<Rightarrow> string" where
  "suffix p =
     (let nm = name p; i = rfind nm CHR ''.''
      in if 0 < i \<and> i < int (length nm) - 1 then drop (nat i) nm else [])"

definition stem :: "path \<Rightarrow> string" where
  "stem p =
     (let nm = name p; i = rfind nm CHR ''.''
      in if 0 < i \<and> i < int (length nm) - 1 then take (nat i) nm else nm)"

text \<open>
  \<open>str.lower()\<close> on the letters \<open>A\<close> to \<open>Z\<close>. Python also lowers letters outside ASCII;
  none of them is lowered to a letter of \<open>.jpg\<close>, \<open>.jpeg\<close> or \<open>.png\<close>, so membership in
  \<open>SUPPORTED_FORMATS\<close> is the same.
\<close>

definition lower_char :: "char \<Rightarrow> char" where
  "lower_char c =
     (if CHR ''A'' \<le> c \<and> c \<le> CHR ''Z'' then char_of (of_char c + (32 :: nat)) else c)"

definition lower :: "string \<Rightarrow> string" where
  "lower s = map lower_char s"

section \<open>Exceptions\<close>

text \<open>
  The exceptions the program tells apart: \<open>main\<close> handles \<open>FileNotFoundError\<close> and
  \<open>NotADirectoryError\<close>, then \<open>KeyboardInterrupt\<close>, then \<open>Exception\<close>.
  \<open>OtherException\<close> is any other subclass of \<open>Exception\<close> (\<open>FileExistsError\<close>,
  \<open>IsADirectoryError\<close>, \<open>PIL.UnidentifiedImageError\<close>, \<open>ValueError\<close>, ...). Each carries
  its message, \<open>str(e)\<close>. \<open>KeyboardInterrupt\<close> derives from \<open>BaseException\<close> only.
\<close>

datatype exn =
    FileNotFoundError string
  | NotADirectoryError string
  | KeyboardInterrupt
  | OtherException string

fun isinstance_Exception :: "exn \<Rightarrow> bool" where
  "isinstance_Exception KeyboardInterrupt = False"
| "isinstance_Exception _ = True"

fun isinstance_FileNotFoundError :: "exn \<Rightarrow> bool" where
  "isinstance_FileNotFoundError (FileNotFoundError _) = True"
| "isinstance_FileNotFoundError _ = False"

text \<open>
  pathlib's \<open>_ignore_error\<close>: the errors of \<open>stat\<close> that \<open>exists()\<close> and \<open>is_dir()\<close> take
  for "no": \<open>ENOENT\<close> and \<open>ENOTDIR\<close> (also \<open>EBADF\<close> and \<open>ELOOP\<close>, which nothing here raises).
\<close>

fun ignore_error :: "exn \<Rightarrow> bool" where
  "ignore_error (FileNotFoundError _) = True"
| "ignore_error (NotADirectoryError _) = True"
| "ignore_error _ = False"

fun str_exn :: "exn \<Rightarrow> string" where
  "str_exn (FileNotFoundError m) = m"
| "str_exn (NotADirectoryError m) = m"
| "str_exn KeyboardInterrupt = []"
| "str_exn (OtherException m) = m"

section \<open>The file system\<close>

text \<open>
  The file system is an association list from paths to nodes; its order is the order in
  which the operating system enumerates entries. A node is a regular file with its bytes or
  a directory; links, devices, sockets and permissions are not modelled. A system call on
  a path with a component of more than \<open>NAME_MAX\<close> bytes fails with \<open>ENAMETOOLONG\<close>, an
  \<open>OSError\<close> with no class of its own.
\<close>

datatype node = RegularFile string | Directory

type_synonym filesystem = "(path \<times> node) list"

definition NAME_MAX :: nat where
  "NAME_MAX = 255"

definition too_long :: "path \<Rightarrow> bool" where
  "too_long p = list_ex (\<lambda>x. NAME_MAX < length x) p"

definition ENAMETOOLONG :: "path \<Rightarrow> exn" where
  "ENAMETOOLONG p = OtherException (''[Errno 36] File name too long: '' @ str_path p)"

text \<open>\<open>os.stat(p)\<close>.\<close>

definition stat :: "filesystem \<Rightarrow> path \<Rightarrow> exn + node" where
  "stat fs p =
     (if too_long p then Inl (ENAMETOOLONG p)
      else case map_of fs p of
             None \<Rightarrow> Inl (FileNotFoundError (''[Errno 2] No such file or directory: '' @ str_path p))
           | Some n \<Rightarrow> Inr n)"

text \<open>
  What the file system holds at a path, as \<open>os.path.exists\<close>, \<open>os.path.isdir\<close> and
  \<open>os.path.isfile\<close> tell it: they call \<open>stat\<close> and answer "no" on any error.
\<close>

definition exists :: "filesystem \<Rightarrow> path \<Rightarrow> bool" where
  "exists fs p = (case stat fs p of Inr _ \<Rightarrow> True | Inl _ \<Rightarrow> False)"

definition is_dir :: "filesystem \<Rightarrow> path \<Rightarrow> bool" where
  "is_dir fs p = (case stat fs p of Inr Directory \<Rightarrow> True | _ \<Rightarrow> False)"

definition is_file :: "filesystem \<Rightarrow> path \<Rightarrow> bool" where
  "is_file fs p = (case stat fs p of Inr (RegularFile _) \<Rightarrow> True | _ \<Rightarrow> False)"

text \<open>
  pathlib's \<open>path.exists()\<close> and \<open>path.is_dir()\<close>: they call \<open>stat\<close>, answer "no" on an
  error that \<open>_ignore_error\<close> accepts and raise any other error again.
\<close>

definition Path_exists :: "filesystem \<Rightarrow> path \<Rightarrow> exn + bool" where
  "Path_exists fs p =
     (case stat fs p of
        Inr _ \<Rightarrow> Inr True
      | Inl e \<Rightarrow> if ignore_error e then Inr False else Inl e)"

definition Path_is_dir :: "filesystem \<Rightarrow> path \<Rightarrow> exn + bool" where
  "Path_is_dir fs p =
     (case stat fs p of
        Inr n \<Rightarrow> Inr (n = Directory)
      | Inl e \<Rightarrow> if ignore_error e then Inr False else Inl e)"

text \<open>\<open>path.iterdir()\<close>: the immediate entries of a directory, each once.\<close>

definition iterdir :: "filesystem \<Rightarrow> path \<Rightarrow> exn + path list" where
  "iterdir fs d =
     (case stat fs d of
        Inl e \<Rightarrow> Inl e
      | Inr Directory \<Rightarrow> Inr (filter (\<lambda>p. parent p = d \<and> p \<noteq> d) (remdups (map fst fs)))
      | Inr (RegularFile _) \<Rightarrow>
          Inl (NotADirectoryError (''[Errno 20] Not a directory: '' @ str_path d)))"

text \<open>\<open>os.mkdir(p)\<close>.\<close>

definition os_mkdir :: "filesystem \<Rightarrow> path \<Rightarrow> exn + filesystem" where
  "os_mkdir fs p =
     (if too_long p then Inl (ENAMETOOLONG p)
      else if exists fs p then Inl (OtherException (''[Errno 17] File exists: '' @ str_path p))
      else case map_of fs (parent p) of
             None \<Rightarrow> Inl (FileNotFoundError (''[Errno 2] No such file or directory: '' @ str_path p))
           | Some Directory \<Rightarrow> Inr (fs @ [(p, Directory)])
           | Some (RegularFile _) \<Rightarrow>
               Inl (NotADirectoryError (''[Errno 20] Not a directory: '' @ str_path p)))"

text \<open>
  \<open>path.mkdir(parents=False, exist_ok=True)\<close>: pathlib calls \<open>os.mkdir\<close>; a
  \<open>FileNotFoundError\<close> is raised again, any other \<open>OSError\<close> is raised again unless the path
  is a directory. (Where \<open>is_dir()\<close> would raise here, \<open>os.mkdir\<close> has raised the same
  \<open>ENAMETOOLONG\<close>, which is raised again.)
\<close>

definition mkdir_exist_ok :: "filesystem \<Rightarrow> path \<Rightarrow> exn + filesystem" where
  "mkdir_exist_ok fs p =
     (case os_mkdir fs p of
        Inr fs' \<Rightarrow> Inr fs'
      | Inl e \<Rightarrow>
          if isinstance_FileNotFoundError e then Inl e
          else if \<not> is_dir fs p then Inl e
          else Inr fs)"

text \<open>
  \<open>path.mkdir(parents=True, exist_ok=True)\<close>: on \<open>FileNotFoundError\<close> pathlib makes the
  parent the same way and then the path itself, unless the path is its own parent.
\<close>

function mkdir_parents :: "filesystem \<Rightarrow> path \<Rightarrow> exn + filesystem" where
  "mkdir_parents fs p =
     (case os_mkdir fs p of
        Inr fs' \<Rightarrow> Inr fs'
      | Inl e \<Rightarrow>
          if isinstance_FileNotFoundError e then
            (if parent p = p then Inl e
             else case mkdir_parents fs (parent p) of
                    Inl e' \<Rightarrow> Inl e'
                  | Inr fs' \<Rightarrow> mkdir_exist_ok fs' p)
          else if \<not> is_dir fs p then Inl e
          else Inr fs)"
  by pat_completeness auto
termination
  by (relation "measure (\<lambda>(fs, p). length p)") (auto simp: parent_def split: if_splits)

declare mkdir_parents.simps [simp del]

text \<open>
  \<open>open(p, "w+b")\<close>: the file is created, or emptied when it exists.
\<close>

definition open_wb :: "filesystem \<Rightarrow> path \<Rightarrow> exn + filesystem" where
  "open_wb fs p =
     (if too_long p then Inl (ENAMETOOLONG p)
      else case map_of fs p of
        Some Directory \<Rightarrow> Inl (OtherException (''[Errno 21] Is a directory: '' @ str_path p))
      | Some (RegularFile _) \<Rightarrow> Inr (AList.update p (RegularFile []) fs)
      | None \<Rightarrow>
          (case map_of fs (parent p) of
             None \<Rightarrow> Inl (FileNotFoundError (''[Errno 2] No such file or directory: '' @ str_path p))
           | Some Directory \<Rightarrow> Inr (AList.update p (RegularFile []) fs)
           | Some (RegularFile _) \<Rightarrow>
               Inl (NotADirectoryError (''[Errno 20] Not a directory: '' @ str_path p))))"

section \<open>The image library\<close>

text \<open>
  The image library is a parameter of the model: decoding the bytes of a file into a pixel
  buffer with its mode, converting a buffer to another mode, and encoding a buffer as WebP
  at a quality and a compression method. Each of them may raise; an interrupt of the user
  while one of them runs is the exception \<open>KeyboardInterrupt\<close> raised there.
\<close>

record image =
  mode :: string
  pixels :: string

record codec =
  decode :: "string \<Rightarrow> exn + image"
  convert :: "image \<Rightarrow> string \<Rightarrow> exn + image"
  encodeWebP :: "image \<Rightarrow> int \<Rightarrow> nat \<Rightarrow> exn + string"

text \<open>\<open>Image.open(p)\<close>: opens the file for reading and decodes it.\<close>

definition Image_open :: "codec \<Rightarrow> filesystem \<Rightarrow> path \<Rightarrow> exn + image" where
  "Image_open c fs p =
     (case stat fs p of
        Inl e \<Rightarrow> Inl e
      | Inr (RegularFile bytes) \<Rightarrow> decode c bytes
      | Inr Directory \<Rightarrow> Inl (OtherException (''[Errno 21] Is a directory: '' @ str_path p)))"

text \<open>
  \<open>img.save(p, 'WEBP', quality=q, method=m)\<close>: the library opens \<open>p\<close> with
  \<open>open(p, "w+b")\<close>, encodes, and writes the bytes into the open file. When the encoder
  raises an \<open>Exception\<close>, the library removes the file if this call created it, and raises
  again; a file that was there before stays, emptied. The result is the exception raised,
  if any, and the file system left behind.
\<close>

definition Image_save ::
  "codec \<Rightarrow> image \<Rightarrow> path \<Rightarrow> int \<Rightarrow> nat \<Rightarrow> filesystem \<Rightarrow> exn option \<times> filesystem" where
  "Image_save c img p q m fs =
     (let created = \<not> exists fs p in
      case open_wb fs p of
        Inl e \<Rightarrow> (Some e, fs)
      | Inr fs1 \<Rightarrow>
          (case encodeWebP c img q m of
             Inl e \<Rightarrow>
               (Some e, if isinstance_Exception e \<and> created then AList.delete p fs1 else fs1)
           | Inr bytes \<Rightarrow> (None, AList.update p (RegularFile bytes) fs1)))"

section \<open>The program\<close>

text \<open>
  The world the program acts on: the file system and the lines printed so far. Printing
  adds a line and is taken not to raise.
\<close>

record world =
  files :: filesystem
  stdout :: "string list"

definition print :: "string \<Rightarrow> world \<Rightarrow> world" where
  "print s w = w\<lparr>stdout := stdout w @ [s]\<rparr>"

fun str_nat :: "nat \<Rightarrow> string" where
  "str_nat n =
     (if n < 10 then [char_of (48 + n)] else str_nat (n div 10) @ [char_of (48 + n mod 10)])"

definition str_int :: "int \<Rightarrow> string" where
  "str_int i = (if i < 0 then ''-'' @ str_nat (nat (- i)) else str_nat (nat i))"

subsection \<open>\<open>ImageConverter\<close>\<close>

record converter =
  input_folder :: path
  output_folder :: path
  quality :: int

definition SUPPORTED_FORMATS :: "string set" where
  "SUPPORTED_FORMATS = {''.jpg'', ''.jpeg'', ''.png''}"

text \<open>
  \<open>__init__\<close>, here \<open>init\<close>. The output folder is the one given unless it is \<open>None\<close> or
  the empty string, which Python takes for false; then it is \<open>webp\<close> beside the input
  folder. An error that \<open>exists()\<close> or \<open>is_dir()\<close> raises leaves the constructor.
\<close>

definition init :: "string \<Rightarrow> string option \<Rightarrow> int \<Rightarrow> filesystem \<Rightarrow> exn + converter" where
  "init input_folder_arg output_folder_arg quality_arg fs =
     (let inp = Path input_folder_arg;
          out = (case output_folder_arg of
                   None \<Rightarrow> parent inp @ [''webp'']
                 | Some s \<Rightarrow> if s \<noteq> [] then Path s else parent inp @ [''webp''])
      in case Path_exists fs inp of
           Inl e \<Rightarrow> Inl e
         | Inr found \<Rightarrow>
             if \<not> found then
               Inl (FileNotFoundError (''Input folder does not exist: '' @ str_path inp))
             else
               (case Path_is_dir fs inp of
                  Inl e \<Rightarrow> Inl e
                | Inr dir \<Rightarrow>
                    if \<not> dir then
                      Inl (NotADirectoryError
                             (''Input path is not a directory: '' @ str_path inp))
                    else Inr \<lparr>input_folder = inp, output_folder = out,
                              quality = quality_arg\<rparr>))"

text \<open>
  \<open>find_images\<close>; \<open>sorted\<close> on paths is the order of their parts. \<open>is_file()\<close> is asked of
  entries the directory has just listed.
\<close>

definition find_images :: "converter \<Rightarrow> filesystem \<Rightarrow> exn + path list" where
  "find_images conv fs =
     (case iterdir fs (input_folder conv) of
        Inl e \<Rightarrow> Inl e
      | Inr entries \<Rightarrow>
          Inr (sort (filter (\<lambda>file_path. is_file fs file_path
                                \<and> lower (suffix file_path) \<in> SUPPORTED_FORMATS) entries)))"

text \<open>The mode an image is given before it is saved.\<close>

definition normalize_mode :: "codec \<Rightarrow> image \<Rightarrow> exn + image" where
  "normalize_mode c img =
     (if mode img = ''P'' then convert c img ''RGBA''
      else if mode img = ''LA'' then convert c img ''RGBA''
      else if mode img = ''RGB'' then Inr img
      else if mode img = ''RGBA'' then Inr img
      else convert c img ''RGB'')"

definition output_filename :: "path \<Rightarrow> string" where
  "output_filename image_path = stem image_path @ ''.webp''"

definition output_path :: "converter \<Rightarrow> path \<Rightarrow> path" where
  "output_path conv image_path = output_folder conv @ [output_filename image_path]"

definition check_mark :: string where
  "check_mark = [CHR 0xE2, CHR 0x9C, CHR 0x93]"

definition ballot_x :: string where
  "ballot_x = [CHR 0xE2, CHR 0x9C, CHR 0x97]"

text \<open>
  The body of the \<open>try\<close> of \<open>convert_image\<close>: the exception it raises, if any, and the world
  at that moment.
\<close>

definition convert_image_try :: "codec \<Rightarrow> converter \<Rightarrow> path \<Rightarrow> world \<Rightarrow> exn option \<times> world" where
  "convert_image_try c conv image_path w =
     (case mkdir_parents (files w) (output_folder conv) of
        Inl e \<Rightarrow> (Some e, w)
      | Inr fs1 \<Rightarrow>
          (case Image_open c fs1 image_path of
             Inl e \<Rightarrow> (Some e, w\<lparr>files := fs1\<rparr>)
           | Inr img \<Rightarrow>
               (case normalize_mode c img of
                  Inl e \<Rightarrow> (Some e, w\<lparr>files := fs1\<rparr>)
                | Inr img' \<Rightarrow>
                    (case Image_save c img' (output_path conv image_path) (quality conv) 6 fs1 of
                       (Some e, fs2) \<Rightarrow> (Some e, w\<lparr>files := fs2\<rparr>)
                     | (None, fs2) \<Rightarrow>
                         (None, print (check_mark @ '' Converted: '' @ name image_path
                                         @ '' -> '' @ output_filename image_path)
                                  (w\<lparr>files := fs2\<rparr>))))))"

text \<open>
  \<open>convert_image\<close>: \<open>except Exception\<close> catches what is an \<open>Exception\<close>; the result is
  \<open>Inr\<close> the flag returned, or \<open>Inl\<close> the exception that leaves the method.
\<close>

definition convert_image :: "codec \<Rightarrow> converter \<Rightarrow> path \<Rightarrow> world \<Rightarrow> (exn + bool) \<times> world" where
  "convert_image c conv image_path w =
     (case convert_image_try c conv image_path w of
        (None, w') \<Rightarrow> (Inr True, w')
      | (Some e, w') \<Rightarrow>
          if isinstance_Exception e then
            (Inr False, print (ballot_x @ '' Failed to convert '' @ name image_path
                                 @ '': '' @ str_exn e) w')
          else (Inl e, w'))"

record stats =
  total :: nat
  converted :: nat
  failed :: nat

text \<open>The \<open>for\<close> loop of \<open>convert_all\<close>, with its two counters.\<close>

fun convert_loop ::
  "codec \<Rightarrow> converter \<Rightarrow> path list \<Rightarrow> nat \<Rightarrow> nat \<Rightarrow> world \<Rightarrow> (exn + nat \<times> nat) \<times> world" where
  "convert_loop c conv [] cv fl w = (Inr (cv, fl), w)"
| "convert_loop c conv (image_path # rest) cv fl w =
     (case convert_image c conv image_path w of
        (Inl e, w') \<Rightarrow> (Inl e, w')
      | (Inr ok, w') \<Rightarrow>
          if ok then convert_loop c conv rest (cv + 1) fl w'
          else convert_loop c conv rest cv (fl + 1) w')"

definition convert_all :: "codec \<Rightarrow> converter \<Rightarrow> world \<Rightarrow> (exn + stats) \<times> world" where
  "convert_all c conv w =
     (case find_images conv (files w) of
        Inl e \<Rightarrow> (Inl e, w)
      | Inr images \<Rightarrow>
          if images = [] then
            (Inr \<lparr>total = 0, converted = 0, failed = 0\<rparr>,
             print (''No supported image files found in: '' @ str_path (input_folder conv)) w)
          else
            let w1 = print (''Found '' @ str_nat (length images) @ '' image(s) to convert...'') w;
                w2 = print (''Input folder: '' @ str_path (input_folder conv)) w1;
                w3 = print (''Output folder: '' @ str_path (output_folder conv)) w2;
                w4 = print (''Quality: '' @ str_int (quality conv) @ ''%'') w3;
                w5 = print (replicate 50 CHR ''-'') w4
            in case convert_loop c conv images 0 0 w5 of
                 (Inl e, w') \<Rightarrow> (Inl e, w')
               | (Inr (cv, fl), w') \<Rightarrow>
                   (Inr \<lparr>total = length images, converted = cv, failed = fl\<rparr>, w'))"

subsection \<open>\<open>main\<close>\<close>

text \<open>
  \<open>main\<close> from the parsed arguments on. The result is the exit status of the process: 1
  where the program calls \<open>sys.exit(1)\<close> (the \<open>SystemExit\<close> raised inside the \<open>try\<close> is
  matched by none of its handlers), 0 where \<open>main\<close> returns.
\<close>

record args =
  input_folder_arg :: string
  output_arg :: "string option"
  quality_arg :: int

definition handlers :: "exn \<Rightarrow> world \<Rightarrow> int \<times> world" where
  "handlers e w =
     (case e of
        FileNotFoundError m \<Rightarrow> (1, print (''Error: '' @ m) w)
      | NotADirectoryError m \<Rightarrow> (1, print (''Error: '' @ m) w)
      | KeyboardInterrupt \<Rightarrow> (1, print (CHR 0x0A # ''Conversion cancelled by user.'') w)
      | OtherException m \<Rightarrow> (1, print (''Unexpected error: '' @ m) w))"

definition main :: "codec \<Rightarrow> args \<Rightarrow> world \<Rightarrow> int \<times> world" where
  "main c a w =
     (if \<not> (0 \<le> quality_arg a \<and> quality_arg a \<le> 100) then
        (1, print ''Error: Quality must be between 0 and 100'' w)
      else
        case init (input_folder_arg a) (output_arg a) (quality_arg a) (files w) of
          Inl e \<Rightarrow> handlers e w
        | Inr converter \<Rightarrow>
            (case convert_all c converter w of
               (Inl e, w') \<Rightarrow> handlers e w'
             | (Inr st, w') \<Rightarrow>
                 let w1 = print (replicate 50 CHR ''-'') w';
                     w2 = print ''Conversion complete!'' w1;
                     w3 = print (''Total files: '' @ str_nat (total st)) w2;
                     w4 = print (''Successfully converted: '' @ str_nat (converted st)) w3;
                     w5 = print (''Failed: '' @ str_nat (failed st)) w4
                 in if failed st > 0 then (1, w5) else (0, w5)))"

section \<open>Sample inputs\<close>

text \<open>
  A small codec to run the model on. A file holds the mode of its image, a colon and its
  pixels; a file that starts with \<open>bad\<close> is not an image. The encoder refuses a buffer of
  more than 16 pixels, as the WebP encoder refuses an image beyond its size limit.
\<close>

definition demo_codec :: codec where
  "demo_codec =
     \<lparr>decode = (\<lambda>bytes.
        if take 3 bytes = ''bad'' then Inl (OtherException ''cannot identify image file'')
        else Inr \<lparr>mode = takeWhile (\<lambda>ch. ch \<noteq> CHR '':'') bytes,
                  pixels = drop 1 (dropWhile (\<lambda>ch. ch \<noteq> CHR '':'') bytes)\<rparr>),
      convert = (\<lambda>img m. Inr (img\<lparr>mode := m\<rparr>)),
      encodeWebP = (\<lambda>img q m.
        if length (pixels img) > 16 then Inl (OtherException ''encoding error 5'')
        else Inr (''WEBP/'' @ mode img @ ''/'' @ pixels img))\<rparr>"

text \<open>The same codec, with the user interrupting the program while a file is decoded.\<close>

definition interrupted_codec :: codec where
  "interrupted_codec = demo_codec\<lparr>decode := (\<lambda>bytes. Inl KeyboardInterrupt)\<rparr>"

definition demo_files :: filesystem where
  "demo_files =
     [([], Directory),
      ([''in''], Directory),
      ([''in'', ''b.JPG''], RegularFile ''RGB:bbb''),
      ([''in'', ''a.png''], RegularFile ''P:aaa''),
      ([''in'', ''notes.txt''], RegularFile ''hello''),
      ([''in'', ''bad.jpg''], RegularFile ''bad''),
      ([''in'', ''sub.png''], Directory),
      ([''in'', ''sub.png'', ''deep.png''], RegularFile ''RGB:ddd''),
      ([''readme''], RegularFile ''text'')]"

definition demo_world :: world where
  "demo_world = \<lparr>files = demo_files, stdout = []\<rparr>"

definition demo_converter :: converter where
  "demo_converter = \<lparr>input_folder = [''in''], output_folder = [''webp''], quality = 80\<rparr>"

text \<open>A folder name of 256 bytes.\<close>

definition long_name :: string where
  "long_name = replicate 256 CHR ''a''"

text \<open>A folder with no image in it.\<close>

definition no_image_world :: world where
  "no_image_world =
     \<lparr>files = [([], Directory), ([''in''], Directory),
               ([''in'', ''notes.txt''], RegularFile ''hello'')],
      stdout = []\<rparr>"


text \<open>Two images with one stem.\<close>

definition same_stem_world :: world where
  "same_stem_world =
     \<lparr>files = [([], Directory), ([''in''], Directory),
               ([''in'', ''a.png''], RegularFile ''RGBA:png''),
               ([''in'', ''a.jpg''], RegularFile ''RGB:jpg'')],
      stdout = []\<rparr>"


section \<open>What the file system holds\<close>

lemma exists_iff: "exists fs p \<longleftrightarrow> \<not> too_long p \<and> map_of fs p \<noteq> None"
  by (auto simp: exists_def stat_def split: option.splits)

lemma is_dir_iff: "is_dir fs p \<longleftrightarrow> \<not> too_long p \<and> map_of fs p = Some Directory"
  by (auto simp: is_dir_def stat_def split: option.splits node.splits)

lemma is_file_iff:
  "is_file fs p \<longleftrightarrow> \<not> too_long p \<and> (\<exists>bytes. map_of fs p = Some (RegularFile bytes))"
  by (auto simp: is_file_def stat_def split: option.splits node.splits)


section \<open>The counters of the batch\<close>

lemma convert_loop_counts:
  "convert_loop c conv ps cv fl w = (Inr (cv', fl'), w') \<Longrightarrow>
     cv' + fl' = cv + fl + length ps \<and> cv \<le> cv' \<and> fl \<le> fl'"
proof (induction ps arbitrary: cv fl w)
  case Nil
  then show ?case by simp
next
  case (Cons p ps)
  obtain r w1 where step: "convert_image c conv p w = (r, w1)"
    by (cases "convert_image c conv p w")
  show ?case
  proof (cases r)
    case (Inl e)
    with Cons.prems step show ?thesis by simp
  next
    case (Inr ok)
    show ?thesis
    proof (cases ok)
      case True
      with Cons.prems step Inr
      have "convert_loop c conv ps (cv + 1) fl w1 = (Inr (cv', fl'), w')" by simp
      from Cons.IH [OF this] show ?thesis by simp
    next
      case False
      with Cons.prems step Inr
      have "convert_loop c conv ps cv (fl + 1) w1 = (Inr (cv', fl'), w')" by simp
      from Cons.IH [OF this] show ?thesis by simp
    qed
  qed
qed

lemma convert_all_counts:
  assumes "fst (convert_all c conv w) = Inr st"
  shows "\<exists>images. find_images conv (files w) = Inr images \<and> total st = length images
           \<and> total st = converted st + failed st"
proof (cases "find_images conv (files w)")
  case (Inl e)
  with assms show ?thesis by (simp add: convert_all_def)
next
  case (Inr images)
  show ?thesis
  proof (cases "images = []")
    case True
    with assms Inr show ?thesis by (auto simp: convert_all_def)
  next
    case False
    define w5 where "w5 = print (replicate 50 CHR ''-'')
       (print (''Quality: '' @ str_int (quality conv) @ ''%'')
         (print (''Output folder: '' @ str_path (output_folder conv))
           (print (''Input folder: '' @ str_path (input_folder conv))
             (print (''Found '' @ str_nat (length images) @ '' image(s) to convert...'') w))))"
    obtain r w' where loop: "convert_loop c conv images 0 0 w5 = (r, w')"
      by (cases "convert_loop c conv images 0 0 w5")
    from assms Inr False loop
    have "\<exists>cv fl. r = Inr (cv, fl) \<and> st = \<lparr>total = length images, converted = cv, failed = fl\<rparr>"
      by (cases r) (auto simp: convert_all_def Let_def w5_def)
    then obtain cv fl where r: "r = Inr (cv, fl)"
      and st: "st = \<lparr>total = length images, converted = cv, failed = fl\<rparr>" by blast
    from convert_loop_counts [of c conv images 0 0 w5 cv fl w'] loop r
    have "cv + fl = length images" by simp
    with st Inr show ?thesis by simp
  qed
qed

lemma demo_find_images:
  "find_images demo_converter (files demo_world)
     = Inr [[''in'', ''a.png''], [''in'', ''b.JPG''], [''in'', ''bad.jpg'']]"
  by code_simp

lemma demo_convert_all:
  "fst (convert_all demo_codec demo_converter demo_world)
     = Inr \<lparr>total = 3, converted = 2, failed = 1\<rparr>"
  by code_simp

text \<open>
  C1. When the list of discovered images is not empty and \<open>convert_all\<close> returns its
  statistics, \<open>total\<close> is the number of discovered files and equals \<open>converted + failed\<close>;
  one pass of the loop over a file adds one to exactly one of the two counters.
\<close>

theorem C1_total_is_converted_plus_failed:
  assumes "find_images conv (files w) = Inr images"
    and "images \<noteq> []"
    and "fst (convert_all c conv w) = Inr st"
  shows "total st = length images \<and> total st = converted st + failed st
     \<and> (\<forall>p cv fl w0 cv' fl' w1.
          convert_loop c conv [p] cv fl w0 = (Inr (cv', fl'), w1) \<longrightarrow>
            (cv' = cv + 1 \<and> fl' = fl) \<or> (cv' = cv \<and> fl' = fl + 1))"
proof -
  from convert_all_counts [OF assms(3)] assms(1)
  have "total st = length images \<and> total st = converted st + failed st" by auto
  moreover have "(cv' = cv + 1 \<and> fl' = fl) \<or> (cv' = cv \<and> fl' = fl + 1)"
    if "convert_loop c conv [p] cv fl w0 = (Inr (cv', fl'), w1)" for p cv fl w0 cv' fl' w1
    using convert_loop_counts [OF that] by auto
  ultimately show ?thesis by blast
qed

theorem C1_witness:
  "find_images demo_converter (files demo_world)
     = Inr [[''in'', ''a.png''], [''in'', ''b.JPG''], [''in'', ''bad.jpg'']]
   \<and> fst (convert_all demo_codec demo_converter demo_world)
     = Inr \<lparr>total = 3, converted = 2, failed = 1\<rparr>
   \<and> total \<lparr>total = 3, converted = 2, failed = 1\<rparr>
     = converted \<lparr>total = 3, converted = 2, failed = 1\<rparr>
       + failed \<lparr>total = 3, converted = 2, failed = 1\<rparr>"
  using C1_total_is_converted_plus_failed [OF demo_find_images _ demo_convert_all]
    demo_find_images demo_convert_all
  by simp

section \<open>An empty batch\<close>

lemma no_image_find_images:
  "find_images demo_converter (files no_image_world) = Inr []"
  by code_simp

text \<open>
  C7. When \<open>find_images\<close> returns the empty list, \<open>convert_all\<close> returns the statistics
  \<open>total = 0\<close>, \<open>converted = 0\<close>, \<open>failed = 0\<close>, prints the notice that no supported image
  file was found and nothing else, and leaves the file system as it was: the output folder
  is not created.
\<close>

theorem C7_empty_batch:
  assumes "find_images conv (files w) = Inr []"
  shows "fst (convert_all c conv w) = Inr \<lparr>total = 0, converted = 0, failed = 0\<rparr>
     \<and> stdout (snd (convert_all c conv w))
         = stdout w @ [''No supported image files found in: '' @ str_path (input_folder conv)]
     \<and> files (snd (convert_all c conv w)) = files w
     \<and> exists (files (snd (convert_all c conv w))) (output_folder conv)
         = exists (files w) (output_folder conv)"
  using assms by (simp add: convert_all_def print_def)

theorem C7_witness:
  "fst (convert_all demo_codec demo_converter no_image_world)
     = Inr \<lparr>total = 0, converted = 0, failed = 0\<rparr>
   \<and> stdout (snd (convert_all demo_codec demo_converter no_image_world))
     = [''No supported image files found in: in'']
   \<and> files (snd (convert_all demo_codec demo_converter no_image_world)) = files no_image_world
   \<and> \<not> exists (files (snd (convert_all demo_codec demo_converter no_image_world))) [''webp'']"
proof -
  have out: "\<not> exists (files no_image_world) (output_folder demo_converter)"
    by (simp add: exists_iff no_image_world_def demo_converter_def)
  have shown: "str_path (input_folder demo_converter) = ''in''"
    by (simp add: demo_converter_def is_anchor_def)
  have folder: "output_folder demo_converter = [''webp'']"
    by (simp add: demo_converter_def)
  from C7_empty_batch [OF no_image_find_images, of demo_codec] out shown folder
  show ?thesis by (simp add: no_image_world_def)
qed

section \<open>Construction\<close>

lemma Path_exists_cases:
  "Path_exists fs p =
     (case stat fs p of Inr n \<Rightarrow> Inr True
      | Inl e \<Rightarrow> if ignore_error e then Inr False else Inl e)"
  by (simp add: Path_exists_def)

lemma init_stat_raises:
  "stat fs (Path i) = Inl e \<Longrightarrow> \<not> ignore_error e \<Longrightarrow> init i out q fs = Inl e"
  by (simp add: init_def Let_def Path_exists_def)

lemma init_missing:
  "stat fs (Path i) = Inl e \<Longrightarrow> ignore_error e \<Longrightarrow>
     init i out q fs
       = Inl (FileNotFoundError (''Input folder does not exist: '' @ str_path (Path i)))"
  by (simp add: init_def Let_def Path_exists_def)

lemma init_not_a_directory:
  "stat fs (Path i) = Inr (RegularFile bytes) \<Longrightarrow>
     init i out q fs
       = Inl (NotADirectoryError (''Input path is not a directory: '' @ str_path (Path i)))"
  by (simp add: init_def Let_def Path_exists_def Path_is_dir_def)

lemma init_directory:
  "stat fs (Path i) = Inr Directory \<Longrightarrow>
     init i out q fs
       = Inr \<lparr>input_folder = Path i,
              output_folder = (case out of
                                 None \<Rightarrow> parent (Path i) @ [''webp'']
                               | Some s \<Rightarrow> if s \<noteq> [] then Path s
                                           else parent (Path i) @ [''webp'']),
              quality = q\<rparr>"
  by (simp add: init_def Let_def Path_exists_def Path_is_dir_def)


lemma long_name_too_long: "too_long [long_name]"
  by code_simp






section \<open>One image\<close>

lemma map_of_update_same: "map_of (AList.update k v al) k = Some v"
  by (simp add: update_conv')

lemma Image_save_written:
  "Image_save c img p q m fs = (None, fs') \<Longrightarrow>
     \<exists>bytes. encodeWebP c img q m = Inr bytes \<and> map_of fs' p = Some (RegularFile bytes)"
  by (auto simp: Image_save_def Let_def map_of_update_same split: sum.splits)

lemma convert_image_True:
  assumes "fst (convert_image c conv p w) = Inr True"
  shows "\<exists>fs1 img img' fs2.
           mkdir_parents (files w) (output_folder conv) = Inr fs1
         \<and> Image_open c fs1 p = Inr img
         \<and> normalize_mode c img = Inr img'
         \<and> Image_save c img' (output_path conv p) (quality conv) 6 fs1 = (None, fs2)
         \<and> snd (convert_image c conv p w)
             = print (check_mark @ '' Converted: '' @ name p @ '' -> '' @ output_filename p)
                 (w\<lparr>files := fs2\<rparr>)"
  using assms
  by (auto simp: convert_image_def convert_image_try_def
      split: sum.splits prod.splits option.splits if_splits)

lemma demo_convert_image_palette:
  "fst (convert_image demo_codec demo_converter [''in'', ''a.png''] demo_world) = Inr True"
  by code_simp

lemma demo_palette_written:
  "map_of (files (snd (convert_image demo_codec demo_converter [''in'', ''a.png''] demo_world)))
     [''webp'', ''a.webp''] = Some (RegularFile ''WEBP/RGBA/aaa'')"
  by code_simp

text \<open>
  C4. \<open>convert_image\<close> normalizes the mode of the decoded image before it encodes: an image
  of mode \<open>P\<close> (palette) or \<open>LA\<close> (grayscale with alpha) is converted to \<open>RGBA\<close>, an image
  of mode \<open>RGB\<close> or \<open>RGBA\<close> is left as it is, an image of any other mode is converted to
  \<open>RGB\<close>; and what a successful \<open>convert_image\<close> leaves at the output path is the encoding
  of the normalized image.
\<close>

theorem C4_mode_normalization:
  "(mode img = ''P'' \<longrightarrow> normalize_mode c img = convert c img ''RGBA'')
   \<and> (mode img = ''LA'' \<longrightarrow> normalize_mode c img = convert c img ''RGBA'')
   \<and> (mode img = ''RGB'' \<longrightarrow> normalize_mode c img = Inr img)
   \<and> (mode img = ''RGBA'' \<longrightarrow> normalize_mode c img = Inr img)
   \<and> (mode img \<notin> {''P'', ''LA'', ''RGB'', ''RGBA''} \<longrightarrow>
        normalize_mode c img = convert c img ''RGB'')
   \<and> (fst (convert_image c conv p w) = Inr True \<longrightarrow>
        (\<exists>fs1 decoded normalized bytes.
            mkdir_parents (files w) (output_folder conv) = Inr fs1
          \<and> Image_open c fs1 p = Inr decoded
          \<and> normalize_mode c decoded = Inr normalized
          \<and> encodeWebP c normalized (quality conv) 6 = Inr bytes
          \<and> map_of (files (snd (convert_image c conv p w))) (output_path conv p)
              = Some (RegularFile bytes)))"
proof -
  have table: "(mode img = ''P'' \<longrightarrow> normalize_mode c img = convert c img ''RGBA'')
   \<and> (mode img = ''LA'' \<longrightarrow> normalize_mode c img = convert c img ''RGBA'')
   \<and> (mode img = ''RGB'' \<longrightarrow> normalize_mode c img = Inr img)
   \<and> (mode img = ''RGBA'' \<longrightarrow> normalize_mode c img = Inr img)
   \<and> (mode img \<notin> {''P'', ''LA'', ''RGB'', ''RGBA''} \<longrightarrow>
        normalize_mode c img = convert c img ''RGB'')"
    by (simp add: normalize_mode_def)
  have saved: "\<exists>fs1 decoded normalized bytes.
            mkdir_parents (files w) (output_folder conv) = Inr fs1
          \<and> Image_open c fs1 p = Inr decoded
          \<and> normalize_mode c decoded = Inr normalized
          \<and> encodeWebP c normalized (quality conv) 6 = Inr bytes
          \<and> map_of (files (snd (convert_image c conv p w))) (output_path conv p)
              = Some (RegularFile bytes)"
    if ok: "fst (convert_image c conv p w) = Inr True"
  proof -
    from convert_image_True [OF ok] obtain fs1 img0 img' fs2 where
      mk: "mkdir_parents (files w) (output_folder conv) = Inr fs1"
      and op: "Image_open c fs1 p = Inr img0"
      and nm: "normalize_mode c img0 = Inr img'"
      and sv: "Image_save c img' (output_path conv p) (quality conv) 6 fs1 = (None, fs2)"
      and w': "snd (convert_image c conv p w)
             = print (check_mark @ '' Converted: '' @ name p @ '' -> '' @ output_filename p)
                 (w\<lparr>files := fs2\<rparr>)"
      by blast
    from Image_save_written [OF sv] obtain bytes where
      en: "encodeWebP c img' (quality conv) 6 = Inr bytes"
      and wr: "map_of fs2 (output_path conv p) = Some (RegularFile bytes)" by blast
    from w' wr have "map_of (files (snd (convert_image c conv p w))) (output_path conv p)
              = Some (RegularFile bytes)" by (simp add: print_def)
    with mk op nm en show ?thesis by blast
  qed
  from table saved show ?thesis by blast
qed

theorem C4_witness:
  "normalize_mode demo_codec \<lparr>mode = ''P'', pixels = ''aaa''\<rparr>
     = Inr \<lparr>mode = ''RGBA'', pixels = ''aaa''\<rparr>
   \<and> normalize_mode demo_codec \<lparr>mode = ''LA'', pixels = ''aaa''\<rparr>
     = Inr \<lparr>mode = ''RGBA'', pixels = ''aaa''\<rparr>
   \<and> normalize_mode demo_codec \<lparr>mode = ''RGB'', pixels = ''aaa''\<rparr>
     = Inr \<lparr>mode = ''RGB'', pixels = ''aaa''\<rparr>
   \<and> normalize_mode demo_codec \<lparr>mode = ''RGBA'', pixels = ''aaa''\<rparr>
     = Inr \<lparr>mode = ''RGBA'', pixels = ''aaa''\<rparr>
   \<and> normalize_mode demo_codec \<lparr>mode = ''CMYK'', pixels = ''aaa''\<rparr>
     = Inr \<lparr>mode = ''RGB'', pixels = ''aaa''\<rparr>
   \<and> fst (convert_image demo_codec demo_converter [''in'', ''a.png''] demo_world) = Inr True
   \<and> map_of (files (snd (convert_image demo_codec demo_converter [''in'', ''a.png''] demo_world)))
        [''webp'', ''a.webp''] = Some (RegularFile ''WEBP/RGBA/aaa'')"
  using C4_mode_normalization [of "\<lparr>mode = ''P'', pixels = ''aaa''\<rparr>" demo_codec
      demo_converter "[''in'', ''a.png'']" demo_world]
    C4_mode_normalization [of "\<lparr>mode = ''LA'', pixels = ''aaa''\<rparr>" demo_codec]
    C4_mode_normalization [of "\<lparr>mode = ''RGB'', pixels = ''aaa''\<rparr>" demo_codec]
    C4_mode_normalization [of "\<lparr>mode = ''RGBA'', pixels = ''aaa''\<rparr>" demo_codec]
    C4_mode_normalization [of "\<lparr>mode = ''CMYK'', pixels = ''aaa''\<rparr>" demo_codec]
    demo_convert_image_palette demo_palette_written
  by (simp add: demo_codec_def)

section \<open>Failures of one image\<close>








section \<open>The exit status\<close>

lemma fst_handlers: "fst (handlers e w) = 1"
  by (cases e) (simp_all add: handlers_def)

lemma main_quality_rejected:
  "\<not> (0 \<le> quality_arg a \<and> quality_arg a \<le> 100) \<Longrightarrow>
     main c a w = (1, print ''Error: Quality must be between 0 and 100'' w)"
  by (simp add: main_def)

lemma main_init_fails:
  "0 \<le> quality_arg a \<and> quality_arg a \<le> 100 \<Longrightarrow>
   init (input_folder_arg a) (output_arg a) (quality_arg a) (files w) = Inl e \<Longrightarrow>
     fst (main c a w) = 1"
  by (simp add: main_def fst_handlers)

lemma main_batch_raises:
  "0 \<le> quality_arg a \<and> quality_arg a \<le> 100 \<Longrightarrow>
   init (input_folder_arg a) (output_arg a) (quality_arg a) (files w) = Inr conv \<Longrightarrow>
   fst (convert_all c conv w) = Inl e \<Longrightarrow>
     fst (main c a w) = 1"
  by (cases "convert_all c conv w") (simp add: main_def fst_handlers)

lemma main_batch_returns:
  "0 \<le> quality_arg a \<and> quality_arg a \<le> 100 \<Longrightarrow>
   init (input_folder_arg a) (output_arg a) (quality_arg a) (files w) = Inr conv \<Longrightarrow>
   fst (convert_all c conv w) = Inr st \<Longrightarrow>
     fst (main c a w) = (if failed st > 0 then 1 else 0)"
  by (cases "convert_all c conv w") (simp add: main_def Let_def)

lemma init_fails_iff:
  "(\<exists>e. init i out q fs = Inl e) \<longleftrightarrow> \<not> exists fs (Path i) \<or> \<not> is_dir fs (Path i)"
proof (cases "stat fs (Path i)")
  case (Inl e)
  then have "\<not> exists fs (Path i)" by (simp add: exists_def)
  moreover from Inl init_missing [of fs i e out q] init_stat_raises [of fs i e out q]
  have "\<exists>e'. init i out q fs = Inl e'" by (cases "ignore_error e") auto
  ultimately show ?thesis by simp
next
  case (Inr n)
  show ?thesis
  proof (cases n)
    case (RegularFile bytes)
    with Inr init_not_a_directory [of fs i bytes out q] show ?thesis
      by (simp add: is_dir_def)
  next
    case Directory
    with Inr init_directory [of fs i out q] show ?thesis
      by (simp add: is_dir_def exists_def)
  qed
qed

text \<open>
  C6. From the parsed arguments on, the exit status of \<open>main\<close> is 0 or 1. It is 0 exactly
  when the quality is in \<open>[0,100]\<close>, the converter is constructed and \<open>convert_all\<close> returns
  statistics with no failure, and then every discovered file was converted; a folder with
  no image gives 0. It is 1 when the quality is out of range (and then nothing but the
  error line is done: the file system is untouched), when the input folder is missing or
  not a directory, when the run is interrupted, and when a file failed.
\<close>

theorem C6_exit_status:
  "(fst (main c a w) = 0 \<or> fst (main c a w) = 1)
   \<and> (fst (main c a w) = 0 \<longleftrightarrow>
        0 \<le> quality_arg a \<and> quality_arg a \<le> 100
        \<and> (\<exists>conv st.
              init (input_folder_arg a) (output_arg a) (quality_arg a) (files w) = Inr conv
            \<and> fst (convert_all c conv w) = Inr st
            \<and> failed st = 0 \<and> converted st = total st))
   \<and> (\<forall>conv. 0 \<le> quality_arg a \<and> quality_arg a \<le> 100
        \<and> init (input_folder_arg a) (output_arg a) (quality_arg a) (files w) = Inr conv
        \<and> find_images conv (files w) = Inr [] \<longrightarrow> fst (main c a w) = 0)
   \<and> (\<not> (0 \<le> quality_arg a \<and> quality_arg a \<le> 100) \<longrightarrow>
        fst (main c a w) = 1 \<and> files (snd (main c a w)) = files w
        \<and> stdout (snd (main c a w)) = stdout w @ [''Error: Quality must be between 0 and 100''])
   \<and> (\<not> exists (files w) (Path (input_folder_arg a))
        \<or> \<not> is_dir (files w) (Path (input_folder_arg a)) \<longrightarrow> fst (main c a w) = 1)
   \<and> (\<forall>conv. init (input_folder_arg a) (output_arg a) (quality_arg a) (files w) = Inr conv
        \<and> fst (convert_all c conv w) = Inl KeyboardInterrupt \<longrightarrow> fst (main c a w) = 1)
   \<and> (\<forall>conv st. init (input_folder_arg a) (output_arg a) (quality_arg a) (files w) = Inr conv
        \<and> fst (convert_all c conv w) = Inr st \<and> failed st > 0 \<longrightarrow> fst (main c a w) = 1)"
proof (cases "0 \<le> quality_arg a \<and> quality_arg a \<le> 100")
  case False
  from main_quality_rejected [OF False, of c w] False
  show ?thesis by (auto simp: print_def)
next
  case q: True
  show ?thesis
  proof (cases "init (input_folder_arg a) (output_arg a) (quality_arg a) (files w)")
    case (Inl e)
    from main_init_fails [OF q Inl, of c] have "fst (main c a w) = 1" .
    with q Inl show ?thesis by simp
  next
    case (Inr conv)
    from init_fails_iff [of "input_folder_arg a" "output_arg a" "quality_arg a" "files w"] Inr
    have dir: "exists (files w) (Path (input_folder_arg a))
      \<and> is_dir (files w) (Path (input_folder_arg a))" by auto
    show ?thesis
    proof (cases "fst (convert_all c conv w)")
      case e: (Inl e)
      from main_batch_raises [OF q Inr e] have "fst (main c a w) = 1" .
      moreover from e have "find_images conv (files w) \<noteq> Inr []"
        by (auto simp: convert_all_def)
      ultimately show ?thesis using q Inr e dir by simp
    next
      case st: (Inr st)
      from main_batch_returns [OF q Inr st]
      have code: "fst (main c a w) = (if failed st > 0 then 1 else 0)" .
      from convert_all_counts [OF st]
      have sum: "total st = converted st + failed st" by blast
      have none: "failed st = 0" if "find_images conv (files w) = Inr []"
        using that st by (auto simp: convert_all_def)
      from code sum none q Inr st dir show ?thesis by auto
    qed
  qed
qed

lemma same_stem_init:
  "init ''in'' None 80 (files same_stem_world) = Inr demo_converter"
  by code_simp

lemma same_stem_convert_all:
  "fst (convert_all demo_codec demo_converter same_stem_world)
     = Inr \<lparr>total = 2, converted = 2, failed = 0\<rparr>"
  by code_simp

lemma demo_init: "init ''in'' None 80 (files demo_world) = Inr demo_converter"
  by code_simp

lemma demo_interrupted:
  "fst (convert_all interrupted_codec demo_converter demo_world) = Inl KeyboardInterrupt"
  by code_simp

theorem C6_witness:
  "fst (main demo_codec \<lparr>input_folder_arg = ''in'', output_arg = None, quality_arg = 80\<rparr>
          same_stem_world) = 0
   \<and> fst (main demo_codec \<lparr>input_folder_arg = ''in'', output_arg = None, quality_arg = 80\<rparr>
          demo_world) = 1
   \<and> fst (main interrupted_codec
          \<lparr>input_folder_arg = ''in'', output_arg = None, quality_arg = 80\<rparr> demo_world) = 1
   \<and> fst (main demo_codec \<lparr>input_folder_arg = ''in'', output_arg = None, quality_arg = 101\<rparr>
          demo_world) = 1"
proof -
  have ok: "fst (main demo_codec
      \<lparr>input_folder_arg = ''in'', output_arg = None, quality_arg = 80\<rparr> same_stem_world) = 0"
    using C6_exit_status [of demo_codec
        "\<lparr>input_folder_arg = ''in'', output_arg = None, quality_arg = 80\<rparr>" same_stem_world]
      same_stem_init same_stem_convert_all
    by simp
  have failure: "fst (main demo_codec
      \<lparr>input_folder_arg = ''in'', output_arg = None, quality_arg = 80\<rparr> demo_world) = 1"
    using C6_exit_status [of demo_codec
        "\<lparr>input_folder_arg = ''in'', output_arg = None, quality_arg = 80\<rparr>" demo_world]
      demo_init demo_convert_all
    by simp
  have interrupt: "fst (main interrupted_codec
      \<lparr>input_folder_arg = ''in'', output_arg = None, quality_arg = 80\<rparr> demo_world) = 1"
    using C6_exit_status [of interrupted_codec
        "\<lparr>input_folder_arg = ''in'', output_arg = None, quality_arg = 80\<rparr>" demo_world]
      demo_init demo_interrupted
    by simp
  have rejected: "fst (main demo_codec
      \<lparr>input_folder_arg = ''in'', output_arg = None, quality_arg = 101\<rparr> demo_world) = 1"
    using C6_exit_status [of demo_codec
        "\<lparr>input_folder_arg = ''in'', output_arg = None, quality_arg = 101\<rparr>" demo_world]
    by simp
  from ok failure interrupt rejected show ?thesis by simp
qed

section \<open>Discovery\<close>

lemma join_snoc: "join sep (ys @ [a]) = (if ys = [] then a else join sep ys @ sep @ a)"
  by (induction sep ys rule: join.induct) auto

lemma str_path_snoc: "\<exists>pre. \<forall>a. str_path (d @ [a]) = pre @ a"
proof (cases d)
  case Nil
  have "\<forall>a. str_path ([] @ [a]) = [] @ a" by simp
  with Nil show ?thesis by blast
next
  case (Cons x xs)
  show ?thesis
  proof (cases "is_anchor x")
    case True
    have "\<forall>a. str_path (d @ [a]) = (if xs = [] then x else x @ join ''/'' xs @ ''/'') @ a"
      using Cons True by (simp add: join_snoc)
    then show ?thesis by blast
  next
    case False
    have "\<forall>a. str_path (d @ [a]) = (join ''/'' d @ ''/'') @ a"
      using Cons False join_snoc [of "''/''" "x # xs"] by simp
    then show ?thesis by blast
  qed
qed

lemma append_le_append: "(pre @ a \<le> pre @ b) = (a \<le> (b :: 'a :: linorder list))"
  by (induction pre) auto

lemma child_decompose: "parent p = d \<Longrightarrow> p \<noteq> d \<Longrightarrow> p = d @ [last p]"
  by (auto simp: parent_def split: if_splits)

lemma str_path_mono_siblings:
  assumes "parent p = d" "p \<noteq> d" "parent q = d" "q \<noteq> d" "p \<le> q"
  shows "str_path p \<le> str_path q"
proof -
  have p: "p = d @ [last p]" using assms(1,2) by (rule child_decompose)
  have q: "q = d @ [last q]" using assms(3,4) by (rule child_decompose)
  obtain pre where pre: "\<forall>a. str_path (d @ [a]) = pre @ a"
    using str_path_snoc by blast
  from assms(5) p q have "d @ [last p] \<le> d @ [last q]" by metis
  then have "last p \<le> last q" by (auto simp: append_le_append)
  then have "pre @ last p \<le> pre @ last q" by (simp add: append_le_append)
  with pre p q show ?thesis by metis
qed

lemma is_file_listed: "is_file fs p \<Longrightarrow> p \<in> fst ` set fs"
proof -
  assume "is_file fs p"
  then have "map_of fs p \<noteq> None" by (auto simp: is_file_iff split: option.splits)
  then show ?thesis by (simp add: map_of_eq_None_iff)
qed

lemma is_file_not_dir: "is_file fs p \<Longrightarrow> is_dir fs d \<Longrightarrow> p \<noteq> d"
  by (auto simp: is_file_iff is_dir_iff)

lemma iterdir_is_dir:
  "is_dir fs d \<Longrightarrow>
     iterdir fs d = Inr (filter (\<lambda>p. parent p = d \<and> p \<noteq> d) (remdups (map fst fs)))"
  by (simp add: iterdir_def is_dir_iff stat_def)

lemma find_images_is_dir:
  assumes "is_dir fs (input_folder conv)"
  shows "find_images conv fs =
    Inr (sort (filter (\<lambda>p. is_file fs p \<and> lower (suffix p) \<in> SUPPORTED_FORMATS)
      (filter (\<lambda>p. parent p = input_folder conv \<and> p \<noteq> input_folder conv)
        (remdups (map fst fs)))))"
  using iterdir_is_dir [OF assms] by (simp add: find_images_def)

lemma sorted_str_path_siblings:
  assumes "sorted xs" and "\<forall>p \<in> set xs. parent p = d \<and> p \<noteq> d"
  shows "sorted (map str_path xs)"
proof -
  have "sorted_wrt (\<lambda>p q. str_path p \<le> str_path q) xs"
  proof (rule sorted_wrt_mono_rel [of xs "(\<le>)"])
    fix p q
    assume "p \<in> set xs" "q \<in> set xs" "p \<le> q"
    with assms(2) show "str_path p \<le> str_path q"
      using str_path_mono_siblings [of p d q] by blast
  next
    from assms(1) show "sorted xs" .
  qed
  then show ?thesis by (simp add: sorted_map)
qed

text \<open>
  C5. When the input folder is a directory, \<open>find_images\<close> returns exactly the immediate
  entries of the folder that are regular files and whose suffix, lower-cased, is \<open>.jpg\<close>,
  \<open>.jpeg\<close> or \<open>.png\<close>, each once, sorted ascending by their full path string (and by their
  parts, which is how pathlib compares them). A file with any other suffix is not in the
  list, and \<open>total\<close> is the length of the list.
\<close>

theorem C5_discovery:
  assumes "is_dir fs (input_folder conv)"
  shows "\<exists>images. find_images conv fs = Inr images
     \<and> set images = {p. parent p = input_folder conv \<and> is_file fs p
                         \<and> lower (suffix p) \<in> {''.jpg'', ''.jpeg'', ''.png''}}
     \<and> distinct images \<and> sorted images \<and> sorted (map str_path images)
     \<and> (\<forall>p. lower (suffix p) \<notin> {''.jpg'', ''.jpeg'', ''.png''} \<longrightarrow> p \<notin> set images)
     \<and> (\<forall>c w st. files w = fs \<and> fst (convert_all c conv w) = Inr st \<longrightarrow>
           total st = length images)"
proof -
  define images where "images =
    sort (filter (\<lambda>p. is_file fs p \<and> lower (suffix p) \<in> SUPPORTED_FORMATS)
      (filter (\<lambda>p. parent p = input_folder conv \<and> p \<noteq> input_folder conv)
        (remdups (map fst fs))))"
  have found: "find_images conv fs = Inr images"
    using find_images_is_dir [OF assms] by (simp add: images_def)
  have members: "set images = {p. parent p = input_folder conv \<and> is_file fs p
                         \<and> lower (suffix p) \<in> {''.jpg'', ''.jpeg'', ''.png''}}"
    using is_file_listed [of fs] is_file_not_dir [OF _ assms]
    by (auto simp: images_def SUPPORTED_FORMATS_def)
  have once: "distinct images" by (simp add: images_def)
  have ordered: "sorted images" by (simp add: images_def)
  have children: "\<forall>p \<in> set images. parent p = input_folder conv \<and> p \<noteq> input_folder conv"
    by (auto simp: images_def)
  have by_string: "sorted (map str_path images)"
    using sorted_str_path_siblings [OF ordered children] .
  have others: "\<forall>p. lower (suffix p) \<notin> {''.jpg'', ''.jpeg'', ''.png''} \<longrightarrow> p \<notin> set images"
    using members by blast
  have counted: "\<forall>c w st. files w = fs \<and> fst (convert_all c conv w) = Inr st \<longrightarrow>
           total st = length images"
  proof (intro allI impI)
    fix c w st
    assume h: "files w = fs \<and> fst (convert_all c conv w) = Inr st"
    then have "fst (convert_all c conv w) = Inr st" by simp
    from convert_all_counts [OF this] h found show "total st = length images" by auto
  qed
  from found members once ordered by_string others counted show ?thesis by blast
qed

theorem C5_witness:
  "is_dir demo_files (input_folder demo_converter)
   \<and> find_images demo_converter demo_files
       = Inr [[''in'', ''a.png''], [''in'', ''b.JPG''], [''in'', ''bad.jpg'']]
   \<and> sorted (map str_path [[''in'', ''a.png''], [''in'', ''b.JPG''], [''in'', ''bad.jpg'']])
   \<and> [''in'', ''notes.txt''] \<notin> set [[''in'', ''a.png''], [''in'', ''b.JPG''], [''in'', ''bad.jpg'']]
   \<and> [''in'', ''sub.png''] \<notin> set [[''in'', ''a.png''], [''in'', ''b.JPG''], [''in'', ''bad.jpg'']]
   \<and> [''in'', ''sub.png'', ''deep.png'']
        \<notin> set [[''in'', ''a.png''], [''in'', ''b.JPG''], [''in'', ''bad.jpg'']]"
proof -
  have dir: "is_dir demo_files (input_folder demo_converter)"
    by code_simp
  have found: "find_images demo_converter demo_files
       = Inr [[''in'', ''a.png''], [''in'', ''b.JPG''], [''in'', ''bad.jpg'']]"
    using demo_find_images by (simp add: demo_world_def)
  from C5_discovery [OF dir] found
  have "sorted (map str_path [[''in'', ''a.png''], [''in'', ''b.JPG''], [''in'', ''bad.jpg'']])"
    by auto
  with dir found show ?thesis by simp
qed

section \<open>What \<open>mkdir\<close> and \<open>save\<close> change\<close>





















section \<open>The output folder after a batch\<close>





















section \<open>Two images with one stem\<close>

lemma convert_loop_two:
  assumes "fst (convert_image c conv p1 w) = Inr True"
    and "fst (convert_image c conv p2 (snd (convert_image c conv p1 w))) = Inr True"
  shows "convert_loop c conv [p1, p2] cv fl w
     = (Inr (cv + 2, fl), snd (convert_image c conv p2 (snd (convert_image c conv p1 w))))"
proof -
  obtain w1 where one: "convert_image c conv p1 w = (Inr True, w1)"
    using assms(1) by (cases "convert_image c conv p1 w") auto
  with assms(2) obtain w2 where two: "convert_image c conv p2 w1 = (Inr True, w2)"
    by (cases "convert_image c conv p2 w1") auto
  from one two show ?thesis by simp
qed

lemma find_images_sorted: "find_images conv fs = Inr images \<Longrightarrow> sorted images"
  by (auto simp: find_images_def split: sum.splits)

lemma sorted_earlier:
  assumes "sorted xs" and "a \<in> set xs" and "b \<in> set xs" and "a < (b :: 'a :: linorder)"
  shows "\<exists>us vs ws. xs = us @ a # vs @ b # ws"
proof -
  from assms(3) obtain ys ws where xs: "xs = ys @ b # ws"
    by (auto simp: in_set_conv_decomp)
  from assms(1) xs have "\<forall>y \<in> set ws. b \<le> y" by (simp add: sorted_append)
  with assms(4) have "a \<notin> set ws" by auto
  with assms(2,4) xs have "a \<in> set ys" by auto
  then obtain us vs where "ys = us @ a # vs" by (auto simp: in_set_conv_decomp)
  with xs show ?thesis by auto
qed

lemma same_stem_stems: "stem [''in'', ''a.jpg''] = stem [''in'', ''a.png'']"
  by code_simp

lemma same_stem_find_images:
  "find_images demo_converter (files same_stem_world)
     = Inr [[''in'', ''a.jpg''], [''in'', ''a.png'']]"
  by code_simp

lemma same_stem_first:
  "fst (convert_image demo_codec demo_converter [''in'', ''a.jpg''] same_stem_world) = Inr True"
  by code_simp

lemma same_stem_first_written:
  "map_of (files (snd (convert_image demo_codec demo_converter [''in'', ''a.jpg'']
                         same_stem_world))) [''webp'', ''a.webp'']
     = Some (RegularFile ''WEBP/RGB/jpg'')"
  by code_simp

lemma same_stem_second:
  "fst (convert_image demo_codec demo_converter [''in'', ''a.png'']
          (snd (convert_image demo_codec demo_converter [''in'', ''a.jpg''] same_stem_world)))
     = Inr True"
  by code_simp

lemma same_stem_second_written:
  "map_of (files (snd (convert_image demo_codec demo_converter [''in'', ''a.png'']
          (snd (convert_image demo_codec demo_converter [''in'', ''a.jpg''] same_stem_world)))))
     [''webp'', ''a.webp''] = Some (RegularFile ''WEBP/RGBA/png'')"
  by code_simp

lemma same_stem_output_path:
  "output_path demo_converter [''in'', ''a.jpg''] = [''webp'', ''a.webp'']"
  by code_simp

text \<open>
  C9. Two images with equal stems have the same output path. Whenever the conversion of
  the second succeeds, the file at that path holds the encoding of the second image
  afterwards, whatever the first left there, and the only line printed is the line of
  success. When both conversions succeed, one after the other, the loop of the batch counts
  both as converted. In the list of discovered images, which the loop follows, the smaller
  of two paths comes first.
\<close>

theorem C9_same_stem_overwrites:
  assumes "stem p1 = stem p2"
  shows "output_path conv p1 = output_path conv p2
     \<and> output_path conv p1 = output_folder conv @ [stem p1 @ ''.webp'']
     \<and> (fst (convert_image c conv p2 w) = Inr True \<longrightarrow>
          (\<exists>fs1 decoded normalized bytes.
              mkdir_parents (files w) (output_folder conv) = Inr fs1
            \<and> Image_open c fs1 p2 = Inr decoded
            \<and> normalize_mode c decoded = Inr normalized
            \<and> encodeWebP c normalized (quality conv) 6 = Inr bytes
            \<and> map_of (files (snd (convert_image c conv p2 w))) (output_path conv p1)
                = Some (RegularFile bytes))
          \<and> stdout (snd (convert_image c conv p2 w))
              = stdout w @ [check_mark @ '' Converted: '' @ name p2 @ '' -> ''
                             @ output_filename p2])
     \<and> (\<forall>cv fl. fst (convert_image c conv p1 w) = Inr True
          \<and> fst (convert_image c conv p2 (snd (convert_image c conv p1 w))) = Inr True \<longrightarrow>
          fst (convert_loop c conv [p1, p2] cv fl w) = Inr (cv + 2, fl))
     \<and> (\<forall>images. find_images conv (files w) = Inr images
          \<and> p1 \<in> set images \<and> p2 \<in> set images \<and> p1 < p2 \<longrightarrow>
          (\<exists>us vs ws. images = us @ p1 # vs @ p2 # ws))"
proof -
  from assms have same: "output_path conv p1 = output_path conv p2"
    by (simp add: output_path_def output_filename_def)
  have shape: "output_path conv p1 = output_folder conv @ [stem p1 @ ''.webp'']"
    by (simp add: output_path_def output_filename_def)
  have later: "(\<exists>fs1 decoded normalized bytes.
              mkdir_parents (files w) (output_folder conv) = Inr fs1
            \<and> Image_open c fs1 p2 = Inr decoded
            \<and> normalize_mode c decoded = Inr normalized
            \<and> encodeWebP c normalized (quality conv) 6 = Inr bytes
            \<and> map_of (files (snd (convert_image c conv p2 w))) (output_path conv p1)
                = Some (RegularFile bytes))
          \<and> stdout (snd (convert_image c conv p2 w))
              = stdout w @ [check_mark @ '' Converted: '' @ name p2 @ '' -> ''
                             @ output_filename p2]"
    if ok: "fst (convert_image c conv p2 w) = Inr True"
  proof -
    from convert_image_True [OF ok] obtain fs1 img0 img' fs2 where
      mk: "mkdir_parents (files w) (output_folder conv) = Inr fs1"
      and op: "Image_open c fs1 p2 = Inr img0"
      and nm: "normalize_mode c img0 = Inr img'"
      and sv: "Image_save c img' (output_path conv p2) (quality conv) 6 fs1 = (None, fs2)"
      and w': "snd (convert_image c conv p2 w)
             = print (check_mark @ '' Converted: '' @ name p2 @ '' -> '' @ output_filename p2)
                 (w\<lparr>files := fs2\<rparr>)"
      by blast
    from Image_save_written [OF sv] obtain bytes where
      en: "encodeWebP c img' (quality conv) 6 = Inr bytes"
      and wr: "map_of fs2 (output_path conv p2) = Some (RegularFile bytes)" by blast
    from w' wr same
    have "map_of (files (snd (convert_image c conv p2 w))) (output_path conv p1)
              = Some (RegularFile bytes)" by (simp add: print_def)
    moreover from w' have "stdout (snd (convert_image c conv p2 w))
              = stdout w @ [check_mark @ '' Converted: '' @ name p2 @ '' -> ''
                             @ output_filename p2]"
      by (simp add: print_def)
    ultimately show ?thesis using mk op nm en by blast
  qed
  have counted: "\<forall>cv fl. fst (convert_image c conv p1 w) = Inr True
          \<and> fst (convert_image c conv p2 (snd (convert_image c conv p1 w))) = Inr True \<longrightarrow>
          fst (convert_loop c conv [p1, p2] cv fl w) = Inr (cv + 2, fl)"
    using convert_loop_two [of c conv p1 w p2] by simp
  have order: "\<forall>images. find_images conv (files w) = Inr images
          \<and> p1 \<in> set images \<and> p2 \<in> set images \<and> p1 < p2 \<longrightarrow>
          (\<exists>us vs ws. images = us @ p1 # vs @ p2 # ws)"
    using find_images_sorted [of conv "files w"] sorted_earlier [of _ p1 p2] by blast
  from same shape later counted order show ?thesis by blast
qed

theorem C9_witness:
  "stem [''in'', ''a.jpg''] = stem [''in'', ''a.png'']
   \<and> find_images demo_converter (files same_stem_world)
       = Inr [[''in'', ''a.jpg''], [''in'', ''a.png'']]
   \<and> output_path demo_converter [''in'', ''a.png''] = [''webp'', ''a.webp'']
   \<and> map_of (files (snd (convert_image demo_codec demo_converter [''in'', ''a.jpg'']
                           same_stem_world))) [''webp'', ''a.webp'']
       = Some (RegularFile ''WEBP/RGB/jpg'')
   \<and> map_of (files (snd (convert_image demo_codec demo_converter [''in'', ''a.png'']
          (snd (convert_image demo_codec demo_converter [''in'', ''a.jpg''] same_stem_world)))))
       [''webp'', ''a.webp''] = Some (RegularFile ''WEBP/RGBA/png'')
   \<and> fst (convert_loop demo_codec demo_converter [[''in'', ''a.jpg''], [''in'', ''a.png'']]
            0 0 same_stem_world) = Inr (2, 0)
   \<and> fst (convert_all demo_codec demo_converter same_stem_world)
       = Inr \<lparr>total = 2, converted = 2, failed = 0\<rparr>"
proof -
  note inst = C9_same_stem_overwrites [OF same_stem_stems, of demo_converter demo_codec
      same_stem_world]
  from inst same_stem_output_path
  have path: "output_path demo_converter [''in'', ''a.png''] = [''webp'', ''a.webp'']"
    by simp
  from inst same_stem_first same_stem_second
  have "fst (convert_loop demo_codec demo_converter [[''in'', ''a.jpg''], [''in'', ''a.png'']]
            0 0 same_stem_world) = Inr (0 + 2, 0)"
    by blast
  then have loop: "fst (convert_loop demo_codec demo_converter
      [[''in'', ''a.jpg''], [''in'', ''a.png'']] 0 0 same_stem_world) = Inr (2, 0)"
    by simp
  from same_stem_stems same_stem_find_images path same_stem_first_written
    same_stem_second_written loop same_stem_convert_all
  show ?thesis by blast
qed

end
